theory Spec2Isabelle
  imports Complex_Main
begin

section \<open>The constraint language of the notebook\<close>

text \<open>
  The notebook \<^verbatim>\<open>AIND-Constraint_Satisfaction.ipynb\<close> declares integer constants with
  \<^verbatim>\<open>Int('name')\<close>, combines them with Python's arithmetic and comparison operators,
  \<^verbatim>\<open>If\<close> and \<^verbatim>\<open>Distinct\<close>, and hands the resulting terms to a solver object with
  \<^verbatim>\<open>add\<close>. The terms are data of the program, so they are a datatype here, with one
  constructor for each operator that the notebook writes:
  \<^item> \<open>IntConst\<close> is \<^verbatim>\<open>Int('name')\<close>;
  \<^item> \<open>IntLit\<close> is a Python integer operand (\<^verbatim>\<open>0\<close>, \<^verbatim>\<open>9\<close>, \<^verbatim>\<open>abs(i-j)\<close>, \<^verbatim>\<open>board[row][column]\<close>);
  \<^item> \<open>FloatLit\<close> is a Python float operand (\<^verbatim>\<open>1e2\<close>), kept by the rational number that
    the float is;
  \<^item> \<open>Add\<close>, \<open>Sub\<close>, \<open>Mul\<close>, \<open>Neg\<close> are \<^verbatim>\<open>+\<close>, binary \<^verbatim>\<open>-\<close>, \<^verbatim>\<open>*\<close> and unary \<^verbatim>\<open>-\<close>;
  \<^item> \<open>Ite\<close> is \<^verbatim>\<open>If(c, a, b)\<close>;
  \<^item> \<open>Le\<close>, \<open>Ge\<close>, \<open>Eq\<close>, \<open>Ne\<close> are \<^verbatim>\<open><=\<close>, \<^verbatim>\<open>>=\<close>, \<^verbatim>\<open>==\<close>, \<^verbatim>\<open>!=\<close>, and \<open>Distinct\<close> is
    \<^verbatim>\<open>Distinct(list)\<close>.
\<close>

datatype arith =
    IntConst string
  | IntLit int
  | FloatLit rat
  | Add arith arith
  | Sub arith arith
  | Mul arith arith
  | Neg arith
  | Ite form arith arith
and form =
    Le arith arith
  | Ge arith arith
  | Eq arith arith
  | Ne arith arith
  | Distinct "arith list"

text \<open>
  A model gives every declared constant an integer (all constants of the notebook are
  of integer sort). Expressions are evaluated in the rationals: integer terms take
  integer values there, and a float operand takes the value of the float. The terms
  handed to the solver are defined below (\<open>elab\<close>); they have the same models
  whenever the float operands are integers (\<open>elab_sound\<close>).
\<close>

type_synonym model = "string \<Rightarrow> int"

fun eval :: "model \<Rightarrow> arith \<Rightarrow> rat" and holds :: "model \<Rightarrow> form \<Rightarrow> bool" where
  "eval m (IntConst x) = of_int (m x)"
| "eval m (IntLit i) = of_int i"
| "eval m (FloatLit q) = q"
| "eval m (Add a b) = eval m a + eval m b"
| "eval m (Sub a b) = eval m a - eval m b"
| "eval m (Mul a b) = eval m a * eval m b"
| "eval m (Neg a) = - eval m a"
| "eval m (Ite c a b) = (if holds m c then eval m a else eval m b)"
| "holds m (Le a b) = (eval m a \<le> eval m b)"
| "holds m (Ge a b) = (eval m a \<ge> eval m b)"
| "holds m (Eq a b) = (eval m a = eval m b)"
| "holds m (Ne a b) = (eval m a \<noteq> eval m b)"
| "holds m (Distinct es) = distinct (map (eval m) es)"

text \<open>
  The float operands of an expression, in the order in which they are written, and
  Python's \<^verbatim>\<open>int()\<close> of a float (truncation towards zero).
\<close>

fun float_lits :: "arith \<Rightarrow> rat list" and float_lits_form :: "form \<Rightarrow> rat list" where
  "float_lits (IntConst x) = []"
| "float_lits (IntLit i) = []"
| "float_lits (FloatLit q) = [q]"
| "float_lits (Add a b) = float_lits a @ float_lits b"
| "float_lits (Sub a b) = float_lits a @ float_lits b"
| "float_lits (Mul a b) = float_lits a @ float_lits b"
| "float_lits (Neg a) = float_lits a"
| "float_lits (Ite c a b) = float_lits_form c @ float_lits a @ float_lits b"
| "float_lits_form (Le a b) = float_lits a @ float_lits b"
| "float_lits_form (Ge a b) = float_lits a @ float_lits b"
| "float_lits_form (Eq a b) = float_lits a @ float_lits b"
| "float_lits_form (Ne a b) = float_lits a @ float_lits b"
| "float_lits_form (Distinct es) = concat (map float_lits es)"

definition py_int :: "rat \<Rightarrow> int" where
  "py_int q = (if 0 \<le> q then \<lfloor>q\<rfloor> else \<lceil>q\<rceil>)"

subsection \<open>The terms handed to the solver\<close>

text \<open>
  The notebook writes Python expressions; the terms that reach the solver are built
  from them by the operators of the solver's Python binding. A term of the solver has
  a sort, an integer numeral and a real numeral are different terms, and an integer
  term enters a real one through \<^verbatim>\<open>ToReal\<close>.
\<close>

datatype sort = IntSort | RealSort

datatype zarith =
    ZConst string
  | ZIntVal int
  | ZRealVal rat
  | ZToReal zarith
  | ZAdd zarith zarith
  | ZSub zarith zarith
  | ZMul zarith zarith
  | ZNeg zarith
  | ZIte zform zarith zarith
and zform =
    ZLe zarith zarith
  | ZGe zarith zarith
  | ZEq zarith zarith
  | ZNe zarith zarith
  | ZDistinct "zarith list"

fun sort_of :: "zarith \<Rightarrow> sort" where
  "sort_of (ZConst x) = IntSort"
| "sort_of (ZIntVal i) = IntSort"
| "sort_of (ZRealVal q) = RealSort"
| "sort_of (ZToReal a) = RealSort"
| "sort_of (ZAdd a b) = sort_of a"
| "sort_of (ZSub a b) = sort_of a"
| "sort_of (ZMul a b) = sort_of a"
| "sort_of (ZNeg a) = sort_of a"
| "sort_of (ZIte c a b) = sort_of a"

fun zeval :: "model \<Rightarrow> zarith \<Rightarrow> rat" and zholds :: "model \<Rightarrow> zform \<Rightarrow> bool" where
  "zeval m (ZConst x) = of_int (m x)"
| "zeval m (ZIntVal i) = of_int i"
| "zeval m (ZRealVal q) = q"
| "zeval m (ZToReal a) = zeval m a"
| "zeval m (ZAdd a b) = zeval m a + zeval m b"
| "zeval m (ZSub a b) = zeval m a - zeval m b"
| "zeval m (ZMul a b) = zeval m a * zeval m b"
| "zeval m (ZNeg a) = - zeval m a"
| "zeval m (ZIte c a b) = (if zholds m c then zeval m a else zeval m b)"
| "zholds m (ZLe a b) = (zeval m a \<le> zeval m b)"
| "zholds m (ZGe a b) = (zeval m a \<ge> zeval m b)"
| "zholds m (ZEq a b) = (zeval m a = zeval m b)"
| "zholds m (ZNe a b) = (zeval m a \<noteq> zeval m b)"
| "zholds m (ZDistinct es) = distinct (map (zeval m) es)"

text \<open>The real numerals of a solver term, in the order in which they occur.\<close>

fun real_vals :: "zarith \<Rightarrow> rat list" and real_vals_form :: "zform \<Rightarrow> rat list" where
  "real_vals (ZConst x) = []"
| "real_vals (ZIntVal i) = []"
| "real_vals (ZRealVal q) = [q]"
| "real_vals (ZToReal a) = real_vals a"
| "real_vals (ZAdd a b) = real_vals a @ real_vals b"
| "real_vals (ZSub a b) = real_vals a @ real_vals b"
| "real_vals (ZMul a b) = real_vals a @ real_vals b"
| "real_vals (ZNeg a) = real_vals a"
| "real_vals (ZIte c a b) = real_vals_form c @ real_vals a @ real_vals b"
| "real_vals_form (ZLe a b) = real_vals a @ real_vals b"
| "real_vals_form (ZGe a b) = real_vals a @ real_vals b"
| "real_vals_form (ZEq a b) = real_vals a @ real_vals b"
| "real_vals_form (ZNe a b) = real_vals a @ real_vals b"
| "real_vals_form (ZDistinct es) = concat (map real_vals es)"

text \<open>
  An operand of a Python operator is a Python integer, a Python float or a term of the
  solver. How a float operand beside an integer term is turned into a numeral depends
  on the release of the binding:
  \<^item> \<open>Truncating\<close>: the operand is cast to the sort of the term, a float to the
    integer numeral of \<^verbatim>\<open>int(float)\<close>. This is the binding of the time of the notebook
    (its kernel is Python 3.6.3).
  \<^item> \<open>RealNumerals\<close>: a float beside an arithmetic term first becomes a real
    numeral, and the integer term is then cast with \<^verbatim>\<open>ToReal\<close>. This is the binding of
    later releases.

  \<open>cast\<close> is the cast of an operand to a sort, \<open>coerce_expr_merge\<close> the sort that
  two operands agree on (real as soon as one term is real), \<open>coerce_exprs\<close> and
  \<open>coerce_expr_list\<close> the coercion of the operands of a binary operator and of
  \<^verbatim>\<open>Distinct\<close>. Operands that are all Python numbers are made numerals of their own
  kind first. The cast of a real term to the integer sort does not arise: the merged
  sort is real whenever an operand is a real term.
\<close>

datatype operand = PyInt int | PyFloat rat | Expr zarith

datatype binding = Truncating | RealNumerals

fun is_expr :: "operand \<Rightarrow> bool" where
  "is_expr (Expr e) = True"
| "is_expr _ = False"

fun py2expr :: "operand \<Rightarrow> zarith" where
  "py2expr (PyInt i) = ZIntVal i"
| "py2expr (PyFloat q) = ZRealVal q"
| "py2expr (Expr e) = e"

fun cast :: "sort \<Rightarrow> operand \<Rightarrow> zarith" where
  "cast IntSort (PyInt i) = ZIntVal i"
| "cast IntSort (PyFloat q) = ZIntVal (py_int q)"
| "cast RealSort (PyInt i) = ZRealVal (of_int i)"
| "cast RealSort (PyFloat q) = ZRealVal q"
| "cast s (Expr e) = (if sort_of e = IntSort \<and> s = RealSort then ZToReal e else e)"

fun coerce_expr_merge :: "sort option \<Rightarrow> operand \<Rightarrow> sort option" where
  "coerce_expr_merge None (Expr e) = Some (sort_of e)"
| "coerce_expr_merge (Some s) (Expr e) =
     (if s = RealSort \<or> sort_of e = RealSort then Some RealSort else Some IntSort)"
| "coerce_expr_merge s _ = s"

fun float_operand :: "binding \<Rightarrow> operand \<Rightarrow> operand \<Rightarrow> operand" where
  "float_operand RealNumerals (PyFloat q) (Expr e) = Expr (ZRealVal q)"
| "float_operand b x y = x"

definition coerce_expr_list :: "binding \<Rightarrow> operand list \<Rightarrow> zarith list" where
  "coerce_expr_list b xs =
     (let xs = (if list_ex is_expr xs then xs else map (Expr \<circ> py2expr) xs)
      in case fold (\<lambda>x s. coerce_expr_merge s x) xs None of
           None \<Rightarrow> []
         | Some s \<Rightarrow> map (cast s) xs)"

definition coerce_exprs :: "binding \<Rightarrow> operand \<Rightarrow> operand \<Rightarrow> zarith \<times> zarith" where
  "coerce_exprs b x y =
     (let (x, y) = (if \<not> is_expr x \<and> \<not> is_expr y then (Expr (py2expr x), Expr (py2expr y))
                    else (x, y));
          (x, y) = (float_operand b x y, float_operand b y x)
      in case coerce_expr_merge (coerce_expr_merge None x) y of
           None \<Rightarrow> (py2expr x, py2expr y)
         | Some s \<Rightarrow> (cast s x, cast s y))"

text \<open>
  The constraint that the binding hands to the solver for an expression of the
  notebook: \<open>elab\<close> follows the Python evaluation of the expression, operator by
  operator.
\<close>

fun elab :: "binding \<Rightarrow> arith \<Rightarrow> operand" and elab_form :: "binding \<Rightarrow> form \<Rightarrow> zform" where
  "elab b (IntConst x) = Expr (ZConst x)"
| "elab b (IntLit i) = PyInt i"
| "elab b (FloatLit q) = PyFloat q"
| "elab b (Add x y) = (case coerce_exprs b (elab b x) (elab b y) of (x', y') \<Rightarrow> Expr (ZAdd x' y'))"
| "elab b (Sub x y) = (case coerce_exprs b (elab b x) (elab b y) of (x', y') \<Rightarrow> Expr (ZSub x' y'))"
| "elab b (Mul x y) = (case coerce_exprs b (elab b x) (elab b y) of (x', y') \<Rightarrow> Expr (ZMul x' y'))"
| "elab b (Neg x) = Expr (ZNeg (py2expr (elab b x)))"
| "elab b (Ite c x y) =
     (case coerce_exprs b (elab b x) (elab b y) of (x', y') \<Rightarrow> Expr (ZIte (elab_form b c) x' y'))"
| "elab_form b (Le x y) = (case coerce_exprs b (elab b x) (elab b y) of (x', y') \<Rightarrow> ZLe x' y')"
| "elab_form b (Ge x y) = (case coerce_exprs b (elab b x) (elab b y) of (x', y') \<Rightarrow> ZGe x' y')"
| "elab_form b (Eq x y) = (case coerce_exprs b (elab b x) (elab b y) of (x', y') \<Rightarrow> ZEq x' y')"
| "elab_form b (Ne x y) = (case coerce_exprs b (elab b x) (elab b y) of (x', y') \<Rightarrow> ZNe x' y')"
| "elab_form b (Distinct es) = ZDistinct (coerce_expr_list b (map (elab b) es))"

text \<open>The integer numerals of a solver term, in the order in which they occur.\<close>

fun int_vals :: "zarith \<Rightarrow> int list" and int_vals_form :: "zform \<Rightarrow> int list" where
  "int_vals (ZConst x) = []"
| "int_vals (ZIntVal i) = [i]"
| "int_vals (ZRealVal q) = []"
| "int_vals (ZToReal a) = int_vals a"
| "int_vals (ZAdd a b) = int_vals a @ int_vals b"
| "int_vals (ZSub a b) = int_vals a @ int_vals b"
| "int_vals (ZMul a b) = int_vals a @ int_vals b"
| "int_vals (ZNeg a) = int_vals a"
| "int_vals (ZIte c a b) = int_vals_form c @ int_vals a @ int_vals b"
| "int_vals_form (ZLe a b) = int_vals a @ int_vals b"
| "int_vals_form (ZGe a b) = int_vals a @ int_vals b"
| "int_vals_form (ZEq a b) = int_vals a @ int_vals b"
| "int_vals_form (ZNe a b) = int_vals a @ int_vals b"
| "int_vals_form (ZDistinct es) = concat (map int_vals es)"

text \<open>
  The value of an operand, and the operands whose cast to the integer sort keeps the
  value: every operand but a float that is not an integer.
\<close>

fun oval :: "model \<Rightarrow> operand \<Rightarrow> rat" where
  "oval m (PyInt i) = of_int i"
| "oval m (PyFloat q) = q"
| "oval m (Expr e) = zeval m e"

fun exact :: "operand \<Rightarrow> bool" where
  "exact (PyFloat q) = (of_int (py_int q) = q)"
| "exact _ = True"

subsection \<open>The solver object\<close>

text \<open>
  A solver instance holds the constraints added so far. \<^verbatim>\<open>Solver()\<close> is the empty one and
  \<^verbatim>\<open>s.add(c1, ..., cn)\<close> appends its arguments. A model satisfies a solver when it
  satisfies every constraint; the decision procedure behind \<^verbatim>\<open>check()\<close> is the external
  library's and is not part of the notebook.
\<close>

type_synonym solver = "form list"

definition Solver :: solver where
  "Solver = []"

definition add :: "form list \<Rightarrow> solver \<Rightarrow> solver" where
  "add cs s = s @ cs"

definition models :: "model \<Rightarrow> solver \<Rightarrow> bool" where
  "models m s = list_all (holds m) s"

definition satisfiable :: "solver \<Rightarrow> bool" where
  "satisfiable s = (\<exists>m. models m s)"

text \<open>A concrete model from a table of values; a constant outside the table gets 0.\<close>

definition model_of :: "(string \<times> int) list \<Rightarrow> model" where
  "model_of kvs x = (case map_of kvs x of Some v \<Rightarrow> v | None \<Rightarrow> 0)"

section \<open>I. Cryptarithmetic\<close>

text \<open>
  \<^verbatim>\<open>F = Int('F')\<close> and the five letters after it. The letter O is written \<open>O'\<close>.
\<close>

definition F :: arith where "F = IntConst ''F''"
definition O' :: arith where "O' = IntConst ''O''"
definition R :: arith where "R = IntConst ''R''"
definition T :: arith where "T = IntConst ''T''"
definition U :: arith where "U = IntConst ''U''"
definition W :: arith where "W = IntConst ''W''"

text \<open>
  The single constraint of the puzzle:
  \<^verbatim>\<open>(T+T)*1e2+(W+W)*1e1 + (O+O)*1e0 == F *1e3 + O * 1e2 + U*1e1 + R*1e0\<close>.
\<close>

definition ca_sum :: form where
  "ca_sum =
     Eq (Add (Add (Mul (Add T T) (FloatLit 100)) (Mul (Add W W) (FloatLit 10)))
             (Mul (Add O' O') (FloatLit 1)))
        (Add (Add (Add (Mul F (FloatLit 1000)) (Mul O' (FloatLit 100)))
                  (Mul U (FloatLit 10)))
             (Mul R (FloatLit 1)))"

text \<open>
  The calls of \<^verbatim>\<open>ca_solver.add\<close> in the order of the cells: the six domains, the leading
  digits, the distinctness of the letters and the sum.
\<close>

definition ca_solver :: solver where
  "ca_solver =
     foldl (\<lambda>s cs. add cs s) Solver
       [[Le (IntLit 0) F, Le F (IntLit 9)],
        [Le (IntLit 0) O', Le O' (IntLit 9)],
        [Le (IntLit 0) R, Le R (IntLit 9)],
        [Le (IntLit 0) T, Le T (IntLit 9)],
        [Le (IntLit 0) U, Le U (IntLit 9)],
        [Le (IntLit 0) W, Le W (IntLit 9)],
        [Ne F (IntLit 0), Ne T (IntLit 0)],
        [Distinct [F, O', R, T, U, W]],
        [ca_sum]]"

text \<open>The assignment that the notebook printed: 846 + 846 = 1692.\<close>

definition ca_printed :: model where
  "ca_printed =
     model_of [(''F'', 1), (''O'', 6), (''R'', 2), (''T'', 8), (''U'', 9), (''W'', 4)]"

section \<open>II. Map coloring\<close>

text \<open>
  \<^verbatim>\<open>WA = Int('WA')\<close> and the regions after it. \<^verbatim>\<open>T = Int('T')\<close> of this section is the
  same term as the letter T above, now added to another solver instance.
\<close>

definition WA :: arith where "WA = IntConst ''WA''"
definition SA :: arith where "SA = IntConst ''SA''"
definition NT :: arith where "NT = IntConst ''NT''"
definition Q :: arith where "Q = IntConst ''Q''"
definition NSW :: arith where "NSW = IntConst ''NSW''"
definition V :: arith where "V = IntConst ''V''"

text \<open>
  The dictionary \<^verbatim>\<open>adjacent\<close>, as the list of its items in the order in which they are
  written (the order in which the loop visits them).
\<close>

definition adjacent :: "(arith \<times> arith list) list" where
  "adjacent =
     [(WA, [NT, SA]), (NT, [WA, SA, Q]), (SA, [WA, NT, Q, V, NSW]),
      (Q, [NT, SA, NSW]), (NSW, [Q, SA, V]), (V, [SA, NSW])]"

text \<open>
  The seven domain cells, then
  \<^verbatim>\<open>for rT in adjacent: for rT2 in adjacent[rT]: mc_solver.add(rT!=rT2)\<close>.
\<close>

definition mc_solver :: solver where
  "mc_solver =
     fold (\<lambda>(rT, nbrs) s. fold (\<lambda>rT2 s. add [Ne rT rT2] s) nbrs s) adjacent
       (foldl (\<lambda>s cs. add cs s) Solver
          [[Le (IntLit 0) WA, Le WA (IntLit 2)],
           [Le (IntLit 0) SA, Le SA (IntLit 2)],
           [Le (IntLit 0) NT, Le NT (IntLit 2)],
           [Le (IntLit 0) Q, Le Q (IntLit 2)],
           [Le (IntLit 0) NSW, Le NSW (IntLit 2)],
           [Le (IntLit 0) V, Le V (IntLit 2)],
           [Le (IntLit 0) T, Le T (IntLit 2)]])"

text \<open>
  \<^verbatim>\<open>solver.model()[X]\<close> for a term \<open>X\<close>: the value of a declared constant.
\<close>

fun model_get :: "model \<Rightarrow> arith \<Rightarrow> int option" where
  "model_get m (IntConst x) = Some (m x)"
| "model_get m _ = None"

text \<open>The constants that occur in a term, in the order in which they are written.\<close>

fun names :: "arith \<Rightarrow> string list" and names_form :: "form \<Rightarrow> string list" where
  "names (IntConst x) = [x]"
| "names (IntLit i) = []"
| "names (FloatLit q) = []"
| "names (Add a b) = names a @ names b"
| "names (Sub a b) = names a @ names b"
| "names (Mul a b) = names a @ names b"
| "names (Neg a) = names a"
| "names (Ite c a b) = names_form c @ names a @ names b"
| "names_form (Le a b) = names a @ names b"
| "names_form (Ge a b) = names a @ names b"
| "names_form (Eq a b) = names a @ names b"
| "names_form (Ne a b) = names a @ names b"
| "names_form (Distinct es) = concat (map names es)"

text \<open>The coloring that the notebook printed (0 = Blue, 1 = Red, 2 = Green).\<close>

definition mc_printed :: model where
  "mc_printed =
     model_of [(''WA'', 2), (''NT'', 1), (''SA'', 0), (''Q'', 2), (''NSW'', 1), (''V'', 2),
               (''T'', 0)]"

section \<open>III. N-Queens\<close>

datatype error = AssertionError | Z3Exception

text \<open>\<^verbatim>\<open>'Q{}'.format(ii)\<close>: the decimal digits of a natural number.\<close>

function format_nat :: "nat \<Rightarrow> string" where
  "format_nat n =
     (if n < 10 then [''0123456789'' ! n]
      else format_nat (n div 10) @ [''0123456789'' ! (n mod 10)])"
  by pat_completeness auto
termination
  by (relation "measure (\<lambda>n. n)") auto

text \<open>\<^verbatim>\<open>def Abs(x): return If(x >= 0, x, -x)\<close>\<close>

definition Abs :: "arith \<Rightarrow> arith" where
  "Abs x = Ite (Ge x (IntLit 0)) x (Neg x)"

text \<open>\<^verbatim>\<open>queens = [Int('Q{}'.format(ii)) for ii in range(N)]\<close>\<close>

definition qname :: "nat \<Rightarrow> string" where
  "qname ii = ''Q'' @ format_nat ii"

definition queens :: "nat \<Rightarrow> arith list" where
  "queens N = map (\<lambda>ii. IntConst (qname ii)) [0..<N]"

text \<open>
  \<^verbatim>\<open>nqueens(N)\<close>. The size is a natural number here (\<^verbatim>\<open>range(N)\<close> is empty for every
  \<^verbatim>\<open>N <= 0\<close>). The library's \<^verbatim>\<open>Distinct\<close> refuses an empty argument list with an
  exception, which is the branch \<open>Inl Z3Exception\<close>; the domain constraints are added
  before it, to a solver that is then lost. The nested loop adds one constraint for
  every ordered pair of different columns \<open>i\<close>, \<open>j\<close>; \<^verbatim>\<open>abs(i-j)\<close> is computed by Python
  and enters the term as an integer operand.
\<close>

definition nqueens :: "nat \<Rightarrow> error + solver" where
  "nqueens N =
     (let nq_solver = Solver;
          nq_solver = add (concat (map (\<lambda>n. [Le (IntLit 0) n, Le n (IntLit 9)]) (queens N))) nq_solver
      in if queens N = [] then Inl Z3Exception
         else
           let nq_solver = add [Distinct (queens N)] nq_solver
           in Inr (fold (\<lambda>(i, queen1) s.
                      fold (\<lambda>(j, queen2) s.
                          if i = j then s
                          else add [Ne (Abs (Sub queen1 queen2)) (IntLit \<bar>int i - int j\<bar>)] s)
                        (enumerate 0 (queens N)) s)
                    (enumerate 0 (queens N)) nq_solver))"

text \<open>
  The constraints that the nested loop of \<open>nqueens\<close> adds, in its order, written
  with the column indices (see \<open>nqueens_eq\<close> below).
\<close>

definition diagonals :: "nat \<Rightarrow> form list" where
  "diagonals N =
     concat (map (\<lambda>i. concat (map (\<lambda>j. if i = j then []
          else [Ne (Abs (Sub (IntConst (qname i)) (IntConst (qname j)))) (IntLit \<bar>int i - int j\<bar>)])
        [0..<N])) [0..<N])"

text \<open>
  The answers of \<^verbatim>\<open>check()\<close>. The three other sections compare the answer with \<^verbatim>\<open>sat\<close>
  (\<^verbatim>\<open>assert solver.check() == sat\<close>); the benchmark loop asserts the answer itself
  (\<^verbatim>\<open>assert nq_solver.check()\<close>), that is its truth value. The answer is an object of a
  class that defines neither \<^verbatim>\<open>__bool__\<close> nor \<^verbatim>\<open>__len__\<close>, so Python takes every
  answer as true; the output recorded in the notebook shows the loop running through
  all four sizes.
\<close>

datatype check_result = sat | unsat | unknown

definition truth_value :: "check_result \<Rightarrow> bool" where
  "truth_value r = True"

definition py_assert :: "bool \<Rightarrow> error + unit" where
  "py_assert b = (if b then Inr () else Inl AssertionError)"

definition assert_check_eq_sat :: "check_result \<Rightarrow> error + unit" where
  "assert_check_eq_sat r = py_assert (r = sat)"

definition assert_check :: "check_result \<Rightarrow> error + unit" where
  "assert_check r = py_assert (truth_value r)"

text \<open>
  The asserting cells of the cryptarithmetic, map coloring and Sudoku sections, each on
  the solver of its section; the decision procedure is the parameter \<open>check\<close>.
\<close>

definition ca_assert_cell :: "(solver \<Rightarrow> check_result) \<Rightarrow> error + unit" where
  "ca_assert_cell check = assert_check_eq_sat (check ca_solver)"

definition mc_assert_cell :: "(solver \<Rightarrow> check_result) \<Rightarrow> error + unit" where
  "mc_assert_cell check = assert_check_eq_sat (check mc_solver)"

definition sizes :: "nat list" where
  "sizes = [8, 16, 32, 64]"

text \<open>
  The benchmark loop over \<open>sizes\<close>. The solver's decision procedure is the parameter
  \<open>check\<close>; the loop keeps the solvers in \<^verbatim>\<open>solutions\<close> (the timing and the printing are
  left out).
\<close>

fun benchmark :: "(solver \<Rightarrow> check_result) \<Rightarrow> nat list \<Rightarrow> solver list \<Rightarrow> error + solver list" where
  "benchmark check [] solutions = Inr solutions"
| "benchmark check (N # Ns) solutions =
     (case nqueens N of
        Inl e \<Rightarrow> Inl e
      | Inr nq_solver \<Rightarrow>
          (case assert_check (check nq_solver) of
             Inl e \<Rightarrow> Inl e
           | Inr _ \<Rightarrow> benchmark check Ns (solutions @ [nq_solver])))"

text \<open>A placement of eight queens, one row for each column.\<close>

definition queens8 :: model where
  "queens8 =
     model_of [(''Q0'', 0), (''Q1'', 4), (''Q2'', 7), (''Q3'', 5), (''Q4'', 2), (''Q5'', 6),
               (''Q6'', 1), (''Q7'', 3)]"

section \<open>IV. Sudoku\<close>

definition rows :: string where "rows = ''ABCDEFGHI''"
definition cols :: string where "cols = ''123456789''"

text \<open>\<^verbatim>\<open>boxes = [[Int("{}{}".format(r, c)) for c in cols] for r in rows]\<close>\<close>

definition boxes :: "arith list list" where
  "boxes = map (\<lambda>r. map (\<lambda>c. IntConst [r, c]) cols) rows"

text \<open>
  \<^verbatim>\<open>zip(*xss)\<close>: the columns of a list of rows, as many as the shortest row has; and the
  slice \<^verbatim>\<open>xs[i:j]\<close> for indices that are not negative.
\<close>

definition zip_star :: "'a list list \<Rightarrow> 'a list list" where
  "zip_star xss =
     (case xss of
        [] \<Rightarrow> []
      | xs # rest \<Rightarrow>
          map (\<lambda>j. map (\<lambda>ys. ys ! j) xss) [0..<fold min (map length rest) (length xs)])"

definition slice :: "'a list \<Rightarrow> nat \<Rightarrow> nat \<Rightarrow> 'a list" where
  "slice xs i j = take (j - i) (drop i xs)"

text \<open>The board of the last cell (the one not commented out); 0 marks a blank.\<close>

definition board :: "int list list" where
  "board =
     [[8, 0, 0, 0, 0, 0, 0, 0, 0],
      [0, 0, 3, 6, 0, 0, 0, 0, 0],
      [0, 7, 0, 0, 9, 0, 2, 0, 0],
      [0, 5, 0, 0, 0, 7, 0, 0, 0],
      [0, 0, 0, 0, 4, 5, 7, 0, 0],
      [0, 0, 0, 1, 0, 0, 0, 3, 0],
      [0, 0, 1, 0, 0, 0, 0, 6, 8],
      [0, 0, 8, 5, 0, 0, 0, 1, 0],
      [0, 9, 0, 0, 0, 0, 4, 0, 0]]"

text \<open>
  The general constraints: the domain of every box, \<^verbatim>\<open>Distinct\<close> for every row, for
  every column and, in the loop over \<^verbatim>\<open>a\<close> and \<^verbatim>\<open>b\<close>, for every 3x3 block.
\<close>

definition s_general :: solver where
  "s_general =
     (let s_solver = Solver;
          s_solver = add (concat (map (\<lambda>box. [Le (IntLit 1) box, Le box (IntLit 9)]) (concat boxes))) s_solver;
          s_solver = add (map Distinct boxes) s_solver;
          s_solver = add (map Distinct (zip_star boxes)) s_solver
      in fold (\<lambda>a s.
             fold (\<lambda>b s.
                 add [Distinct (slice (boxes ! a) b (b + 3) @ slice (boxes ! (a + 1)) b (b + 3)
                                @ slice (boxes ! (a + 2)) b (b + 3))] s)
               [0, 3, 6] s)
           [0, 3, 6] s_solver)"

text \<open>
  The hints: the loop over \<^verbatim>\<open>range(9)\<close> twice that adds \<^verbatim>\<open>boxes[row][column] ==
  board[row][column]\<close> where the board is not 0. \<open>hints\<close> is the loop on any solver and
  \<open>s_solver\<close> is the solver at the time of \<^verbatim>\<open>s_solver.check()\<close>.
\<close>

definition hints :: "solver \<Rightarrow> solver" where
  "hints s0 =
     fold (\<lambda>row s.
         fold (\<lambda>column s.
             if board ! row ! column \<noteq> 0
             then add [Eq (boxes ! row ! column) (IntLit (board ! row ! column))] s
             else s)
           [0..<9] s)
       [0..<9] s0"

definition s_solver :: solver where
  "s_solver = hints s_general"

definition s_assert_cell :: "(solver \<Rightarrow> check_result) \<Rightarrow> error + unit" where
  "s_assert_cell check = assert_check_eq_sat (check s_solver)"

text \<open>The grid that the notebook printed, row by row.\<close>

definition s_printed_grid :: "int list list" where
  "s_printed_grid =
     [[8, 1, 2, 7, 5, 3, 6, 4, 9],
      [9, 4, 3, 6, 8, 2, 1, 7, 5],
      [6, 7, 5, 4, 9, 1, 2, 8, 3],
      [1, 5, 4, 2, 3, 7, 8, 9, 6],
      [3, 6, 9, 8, 4, 5, 7, 2, 1],
      [2, 8, 7, 1, 6, 9, 5, 3, 4],
      [5, 2, 1, 9, 7, 4, 3, 6, 8],
      [4, 3, 8, 5, 2, 6, 9, 1, 7],
      [7, 9, 6, 3, 1, 8, 4, 5, 2]]"

definition s_printed :: model where
  "s_printed =
     model_of (concat (map (\<lambda>(r, vs). map (\<lambda>(c, v). ([r, c], v)) (zip cols vs))
                           (zip rows s_printed_grid)))"

section \<open>Cryptarithmetic: the models\<close>

lemmas letter_defs = F_def O'_def R_def T_def U_def W_def

lemma holds_ca_sum:
  "holds m ca_sum \<longleftrightarrow>
     (m ''T'' + m ''T'') * 100 + (m ''W'' + m ''W'') * 10 + (m ''O'' + m ''O'')
       = m ''F'' * 1000 + m ''O'' * 100 + m ''U'' * 10 + m ''R''"
proof -
  have "holds m ca_sum \<longleftrightarrow>
      (of_int ((m ''T'' + m ''T'') * 100 + (m ''W'' + m ''W'') * 10 + (m ''O'' + m ''O'')) :: rat)
        = of_int (m ''F'' * 1000 + m ''O'' * 100 + m ''U'' * 10 + m ''R'')"
    by (simp add: ca_sum_def letter_defs)
  then show ?thesis
    by (simp only: of_int_eq_iff)
qed

lemma models_ca_solver:
  "models m ca_solver \<longleftrightarrow>
     list_all (\<lambda>x. 0 \<le> m x \<and> m x \<le> 9) [''F'', ''O'', ''R'', ''T'', ''U'', ''W'']
     \<and> m ''F'' \<noteq> 0 \<and> m ''T'' \<noteq> 0
     \<and> distinct [m ''F'', m ''O'', m ''R'', m ''T'', m ''U'', m ''W'']
     \<and> holds m ca_sum"
  by (simp add: ca_solver_def models_def add_def Solver_def letter_defs)

lemma models_ca_printed: "models ca_printed ca_solver"
  by (simp add: models_ca_solver holds_ca_sum ca_printed_def model_of_def)

text \<open>
  C4. Every satisfying model of \<open>ca_solver\<close> gives the six letters F, O, R, T, U, W
  pairwise distinct digits in 0..9 with F and T not 0, and the digits satisfy
  TWO + TWO = FOUR, that is 2 * (100 * T + 10 * W + O) = 1000 * F + 100 * O + 10 * U + R.
\<close>

theorem ca_models_solve_puzzle:
  assumes "models m ca_solver"
  shows "distinct [m ''F'', m ''O'', m ''R'', m ''T'', m ''U'', m ''W'']
       \<and> (\<forall>x \<in> set [''F'', ''O'', ''R'', ''T'', ''U'', ''W'']. 0 \<le> m x \<and> m x \<le> 9)
       \<and> m ''F'' \<noteq> 0 \<and> m ''T'' \<noteq> 0
       \<and> 2 * (100 * m ''T'' + 10 * m ''W'' + m ''O'')
           = 1000 * m ''F'' + 100 * m ''O'' + 10 * m ''U'' + m ''R''"
proof -
  from assms have all: "list_all (\<lambda>x. 0 \<le> m x \<and> m x \<le> 9) [''F'', ''O'', ''R'', ''T'', ''U'', ''W'']
      \<and> m ''F'' \<noteq> 0 \<and> m ''T'' \<noteq> 0
      \<and> distinct [m ''F'', m ''O'', m ''R'', m ''T'', m ''U'', m ''W'']
      \<and> holds m ca_sum"
    unfolding models_ca_solver .
  then have dom: "list_all (\<lambda>x. 0 \<le> m x \<and> m x \<le> 9) [''F'', ''O'', ''R'', ''T'', ''U'', ''W'']"
    and lead: "m ''F'' \<noteq> 0" "m ''T'' \<noteq> 0"
    and dist: "distinct [m ''F'', m ''O'', m ''R'', m ''T'', m ''U'', m ''W'']"
    and sum: "holds m ca_sum"
    by simp_all
  from sum have "2 * (100 * m ''T'' + 10 * m ''W'' + m ''O'')
      = 1000 * m ''F'' + 100 * m ''O'' + 10 * m ''U'' + m ''R''"
    by (simp add: holds_ca_sum)
  moreover from dom have "\<forall>x \<in> set [''F'', ''O'', ''R'', ''T'', ''U'', ''W'']. 0 \<le> m x \<and> m x \<le> 9"
    by (simp only: list_all_iff)
  ultimately show ?thesis
    using lead dist by blast
qed

theorem ca_models_solve_puzzle_witness:
  "models ca_printed ca_solver
   \<and> distinct (map ca_printed [''F'', ''O'', ''R'', ''T'', ''U'', ''W''])
   \<and> ca_printed ''F'' = 1 \<and> ca_printed ''T'' = 8
   \<and> 2 * (100 * ca_printed ''T'' + 10 * ca_printed ''W'' + ca_printed ''O'')
       = 1000 * ca_printed ''F'' + 100 * ca_printed ''O'' + 10 * ca_printed ''U'' + ca_printed ''R''"
  using ca_models_solve_puzzle [OF models_ca_printed] models_ca_printed
  by (simp add: ca_printed_def model_of_def)

subsection \<open>The sum constraint as handed to the solver\<close>

text \<open>
  Elaboration keeps the value of every expression whose float operands are integers,
  under either binding; so the constraints handed to the solver have the models of
  \<open>holds\<close>.
\<close>

lemma zeval_py2expr: "zeval m (py2expr x) = oval m x"
  by (cases x) simp_all

lemma zeval_cast: "exact x \<Longrightarrow> zeval m (cast s x) = oval m x"
  by (cases x; cases s) simp_all

lemma merge_Some: "\<exists>s'. fold (\<lambda>x s. coerce_expr_merge s x) xs (Some s) = Some s'"
proof (induction xs arbitrary: s)
  case Nil
  then show ?case by simp
next
  case (Cons x xs)
  then show ?case by (cases x) simp_all
qed

lemma merge_None:
  "fold (\<lambda>x s. coerce_expr_merge s x) xs None = None \<Longrightarrow> \<not> list_ex is_expr xs"
proof (induction xs)
  case Nil
  then show ?case by simp
next
  case (Cons x xs)
  show ?case
  proof (cases x)
    case (Expr e)
    with Cons.prems merge_Some [of xs "sort_of e"] show ?thesis
      by simp
  qed (use Cons in simp_all)
qed

lemma coerce_exprs_val:
  assumes "exact x" and "exact y" and "coerce_exprs b x y = (x', y')"
  shows "zeval m x' = oval m x \<and> zeval m y' = oval m y"
  using assms
  by (cases x; cases y; cases b)
    (auto simp add: coerce_exprs_def Let_def zeval_cast split: if_splits option.splits)

lemma coerce_exprs_fst_snd:
  assumes "exact x" and "exact y"
  shows "zeval m (fst (coerce_exprs b x y)) = oval m x"
    and "zeval m (snd (coerce_exprs b x y)) = oval m y"
  using coerce_exprs_val [OF assms, of b "fst (coerce_exprs b x y)" "snd (coerce_exprs b x y)" m]
  by simp_all

lemma coerce_expr_list_val:
  assumes "list_all exact xs"
  shows "map (zeval m) (coerce_expr_list b xs) = map (oval m) xs"
proof (cases "list_ex is_expr xs")
  case True
  then obtain s where "fold (\<lambda>x s. coerce_expr_merge s x) xs None = Some s"
    using merge_None [of xs] by (cases "fold (\<lambda>x s. coerce_expr_merge s x) xs None") auto
  with True assms show ?thesis
    by (simp add: coerce_expr_list_def list_all_iff zeval_cast)
next
  case False
  let ?ys = "map (Expr \<circ> py2expr) xs"
  show ?thesis
  proof (cases "fold (\<lambda>x s. coerce_expr_merge s x) ?ys None")
    case None
    then have "\<not> list_ex is_expr ?ys"
      by (rule merge_None)
    then have "xs = []"
      by (cases xs) simp_all
    then show ?thesis
      by (simp add: coerce_expr_list_def)
  next
    case (Some s)
    with False show ?thesis
      by (simp add: coerce_expr_list_def zeval_py2expr comp_def)
  qed
qed

lemma elab_sound:
  "list_all (\<lambda>q. of_int (py_int q) = q) (float_lits a)
     \<Longrightarrow> exact (elab b a) \<and> oval m (elab b a) = eval m a"
  "list_all (\<lambda>q. of_int (py_int q) = q) (float_lits_form c)
     \<Longrightarrow> zholds m (elab_form b c) = holds m c"
proof (induction a and c)
  case (Distinct es)
  then have ex: "list_all exact (map (elab b) es)"
    and eq: "map (oval m) (map (elab b) es) = map (eval m) es"
    by (auto simp add: list_all_iff)
  have "map (zeval m) (coerce_expr_list b (map (elab b) es)) = map (eval m) es"
    using coerce_expr_list_val [OF ex, of m b] eq by (rule trans)
  then show ?case
    by (simp only: elab_form.simps zholds.simps holds.simps)
qed (simp_all add: zeval_py2expr case_prod_beta coerce_exprs_fst_snd)

lemma models_handed:
  assumes "list_all (\<lambda>c. list_all (\<lambda>q. of_int (py_int q) = q) (float_lits_form c)) s"
  shows "list_all (zholds m) (map (elab_form b) s) \<longleftrightarrow> models m s"
  using assms by (induction s) (simp_all add: models_def elab_sound(2))

lemma ca_solver_floats_exact:
  "list_all (\<lambda>c. list_all (\<lambda>q. of_int (py_int q) = q) (float_lits_form c)) ca_solver"
  by (simp add: ca_solver_def add_def Solver_def ca_sum_def letter_defs py_int_def)

lemma ca_solver_handed: "list_all (zholds m) (map (elab_form b) ca_solver) \<longleftrightarrow> models m ca_solver"
  using ca_solver_floats_exact by (rule models_handed)







section \<open>Map coloring: the models\<close>

lemmas region_defs = WA_def SA_def NT_def Q_def NSW_def V_def T_def

lemma mc_solver_eq:
  "mc_solver =
     [Le (IntLit 0) WA, Le WA (IntLit 2), Le (IntLit 0) SA, Le SA (IntLit 2),
      Le (IntLit 0) NT, Le NT (IntLit 2), Le (IntLit 0) Q, Le Q (IntLit 2),
      Le (IntLit 0) NSW, Le NSW (IntLit 2), Le (IntLit 0) V, Le V (IntLit 2),
      Le (IntLit 0) T, Le T (IntLit 2),
      Ne WA NT, Ne WA SA,
      Ne NT WA, Ne NT SA, Ne NT Q,
      Ne SA WA, Ne SA NT, Ne SA Q, Ne SA V, Ne SA NSW,
      Ne Q NT, Ne Q SA, Ne Q NSW,
      Ne NSW Q, Ne NSW SA, Ne NSW V,
      Ne V SA, Ne V NSW]"
  by (simp add: mc_solver_def adjacent_def add_def Solver_def)

lemma models_mc_printed: "models mc_printed mc_solver"
  by (simp add: mc_solver_eq models_def region_defs mc_printed_def model_of_def)

text \<open>
  C7. Every satisfying model of \<open>mc_solver\<close> gives each of the seven regions WA, SA,
  NT, Q, NSW, V, T a color in 0..2, and two regions that the dictionary \<open>adjacent\<close>
  lists as neighbours get different colors.
\<close>

theorem mc_models_color_map:
  assumes "models m mc_solver"
  shows "(\<forall>r \<in> set [WA, SA, NT, Q, NSW, V, T]. \<exists>c. model_get m r = Some c \<and> 0 \<le> c \<and> c \<le> 2)
       \<and> (\<forall>(r, nbrs) \<in> set adjacent. \<forall>r2 \<in> set nbrs. model_get m r \<noteq> model_get m r2)"
  using assms
  by (simp add: mc_solver_eq models_def adjacent_def region_defs)

theorem mc_models_color_map_witness:
  "models mc_printed mc_solver
   \<and> map (model_get mc_printed) [WA, SA, NT, Q, NSW, V, T]
       = [Some 2, Some 0, Some 1, Some 2, Some 1, Some 2, Some 0]
   \<and> list_all (\<lambda>(r, nbrs). list_all (\<lambda>r2. model_get mc_printed r \<noteq> model_get mc_printed r2) nbrs) adjacent"
  using mc_models_color_map [OF models_mc_printed] models_mc_printed
  by (simp add: mc_printed_def model_of_def region_defs adjacent_def)

text \<open>
  C9. The only constraints of \<open>mc_solver\<close> in which T (Tasmania) occurs are its two
  bounds 0 <= T and T <= 2; it occurs in no disequality. So the color of T can be
  changed to any of 0, 1, 2 in any satisfying model, whatever the other six regions
  have, and for each of the three colors there is a satisfying model with T of that
  color.
\<close>

theorem tasmania_is_free:
  "filter (\<lambda>c. ''T'' \<in> set (names_form c)) mc_solver = [Le (IntLit 0) T, Le T (IntLit 2)]
   \<and> (\<forall>c \<in> {0, 1, 2}. models m mc_solver \<longrightarrow> models (m(''T'' := c)) mc_solver)
   \<and> (\<forall>c \<in> {0, 1, 2}. \<exists>m'. models m' mc_solver \<and> m' ''T'' = c)"
proof -
  have only: "filter (\<lambda>c. ''T'' \<in> set (names_form c)) mc_solver = [Le (IntLit 0) T, Le T (IntLit 2)]"
    by (simp add: mc_solver_eq region_defs)
  have upd: "models (m(''T'' := c)) mc_solver" if "models m mc_solver" "c \<in> {0, 1, 2}" for m c
    using that by (auto simp add: mc_solver_eq models_def region_defs)
  have ex: "\<exists>m'. models m' mc_solver \<and> m' ''T'' = c" if "c \<in> {0, 1, 2}" for c
  proof -
    from that have "models (mc_printed(''T'' := c)) mc_solver"
      by (rule upd [OF models_mc_printed])
    then show ?thesis
      by (intro exI [of _ "mc_printed(''T'' := c)"]) simp
  qed
  from only upd ex show ?thesis
    by blast
qed

theorem tasmania_is_free_witness:
  "models mc_printed mc_solver
   \<and> models (mc_printed(''T'' := 1)) mc_solver
   \<and> models (mc_printed(''T'' := 2)) mc_solver
   \<and> (mc_printed(''T'' := 2)) ''WA'' = mc_printed ''WA''"
  using tasmania_is_free [of mc_printed] models_mc_printed
  by simp

section \<open>N-Queens: the constraint set and its models\<close>

lemma fold_add_concat:
  "fold (\<lambda>x s. if P x then s else add (f x) s) xs s
     = s @ concat (map (\<lambda>x. if P x then [] else f x) xs)"
  by (induction xs arbitrary: s) (simp_all add: add_def)

lemma fold_append_concat:
  "fold (\<lambda>x s. s @ g x) xs s = s @ concat (map g xs)"
  by (induction xs arbitrary: s) simp_all

lemma queens_eq: "queens N = map (\<lambda>i. IntConst (qname i)) [0..<N]"
  by (simp add: queens_def)

lemma enumerate_queens:
  "enumerate 0 (queens N) = map (\<lambda>i. (i, IntConst (qname i))) [0..<N]"
  by (simp add: queens_eq enumerate_eq_zip zip_map2 zip_same_conv_map)

lemma nqueens_eq:
  assumes "0 < N"
  shows "nqueens N =
     Inr (concat (map (\<lambda>n. [Le (IntLit 0) n, Le n (IntLit 9)]) (queens N))
          @ [Distinct (queens N)] @ diagonals N)"
proof -
  from assms have ne: "queens N \<noteq> []"
    by (simp add: queens_def)
  have inner: "fold (\<lambda>(j, queen2) s. if i = j then s
        else add [Ne (Abs (Sub queen1 queen2)) (IntLit \<bar>int i - int j\<bar>)] s) xs
      = (\<lambda>s. s @ concat (map (\<lambda>(j, queen2). if i = j then []
        else [Ne (Abs (Sub queen1 queen2)) (IntLit \<bar>int i - int j\<bar>)]) xs))"
    for i queen1 xs
  proof
    fix s :: solver
    show "fold (\<lambda>(j, queen2) s. if i = j then s
        else add [Ne (Abs (Sub queen1 queen2)) (IntLit \<bar>int i - int j\<bar>)] s) xs s
      = s @ concat (map (\<lambda>(j, queen2). if i = j then []
        else [Ne (Abs (Sub queen1 queen2)) (IntLit \<bar>int i - int j\<bar>)]) xs)"
      using fold_add_concat [of "\<lambda>x. i = fst x"
          "\<lambda>x. [Ne (Abs (Sub queen1 (snd x))) (IntLit \<bar>int i - int (fst x)\<bar>)]" xs s]
      by (simp add: split_def)
  qed
  have outer: "fold (\<lambda>(i, queen1) s. s @ g i queen1) xs s
      = s @ concat (map (\<lambda>(i, queen1). g i queen1) xs)"
    for g :: "nat \<Rightarrow> arith \<Rightarrow> form list" and xs s
    using fold_append_concat [of "\<lambda>x. g (fst x) (snd x)" xs s]
    by (simp add: split_def)
  from ne have "nqueens N =
      Inr (fold (\<lambda>(i, queen1) s. s @ concat (map (\<lambda>(j, queen2). if i = j then []
              else [Ne (Abs (Sub queen1 queen2)) (IntLit \<bar>int i - int j\<bar>)]) (enumerate 0 (queens N))))
            (enumerate 0 (queens N))
            (concat (map (\<lambda>n. [Le (IntLit 0) n, Le n (IntLit 9)]) (queens N)) @ [Distinct (queens N)]))"
    by (simp add: nqueens_def Let_def inner add_def Solver_def)
  also have "\<dots> = Inr (concat (map (\<lambda>n. [Le (IntLit 0) n, Le n (IntLit 9)]) (queens N))
          @ [Distinct (queens N)] @ diagonals N)"
    by (simp add: outer enumerate_queens diagonals_def comp_def)
  finally show ?thesis .
qed

lemma holds_diagonal:
  "holds m (Ne (Abs (Sub (IntConst x) (IntConst y))) (IntLit k)) \<longleftrightarrow> \<bar>m x - m y\<bar> \<noteq> k"
proof -
  have "eval m (Abs (Sub (IntConst x) (IntConst y))) = of_int \<bar>m x - m y\<bar>"
    by (simp add: Abs_def)
  then show ?thesis
    by (simp only: holds.simps eval.simps of_int_eq_iff)
qed

lemma models_nqueens:
  assumes "nqueens N = Inr s"
  shows "models m s \<longleftrightarrow>
     (\<forall>i<N. 0 \<le> m (qname i) \<and> m (qname i) \<le> 9)
     \<and> distinct (map (\<lambda>i. m (qname i)) [0..<N])
     \<and> (\<forall>i<N. \<forall>j<N. i \<noteq> j \<longrightarrow> \<bar>m (qname i) - m (qname j)\<bar> \<noteq> \<bar>int i - int j\<bar>)"
proof -
  from assms have "0 < N"
    by (cases N) (simp_all add: nqueens_def queens_def)
  with assms have s: "s = concat (map (\<lambda>n. [Le (IntLit 0) n, Le n (IntLit 9)]) (queens N))
          @ [Distinct (queens N)] @ diagonals N"
    by (simp add: nqueens_eq)
  have dom: "list_all (holds m) (concat (map (\<lambda>n. [Le (IntLit 0) n, Le n (IntLit 9)]) (queens N)))
      \<longleftrightarrow> (\<forall>i<N. 0 \<le> m (qname i) \<and> m (qname i) \<le> 9)"
    by (auto simp add: queens_eq list_all_iff)
  have "map (eval m) (queens N) = map (of_int \<circ> (\<lambda>i. m (qname i))) [0..<N]"
    by (simp add: queens_eq)
  then have dist: "holds m (Distinct (queens N)) \<longleftrightarrow> distinct (map (\<lambda>i. m (qname i)) [0..<N])"
    by (simp add: distinct_map inj_on_def flip: map_map)
  have diag: "list_all (holds m) (diagonals N)
      \<longleftrightarrow> (\<forall>i<N. \<forall>j<N. i \<noteq> j \<longrightarrow> \<bar>m (qname i) - m (qname j)\<bar> \<noteq> \<bar>int i - int j\<bar>)"
    unfolding diagonals_def list_all_iff
    by (auto simp add: holds_diagonal simp del: holds.simps split: if_splits)
  show ?thesis
    unfolding s models_def list_all_append
    using dom dist diag by simp
qed

lemma nqueens_unsat:
  assumes "10 < N"
  shows "\<exists>s. nqueens N = Inr s \<and> \<not> satisfiable s"
proof -
  from assms obtain s where s: "nqueens N = Inr s"
    by (simp add: nqueens_eq)
  have "\<not> models m s" for m
  proof
    assume "models m s"
    then have dom: "\<forall>i<N. 0 \<le> m (qname i) \<and> m (qname i) \<le> 9"
      and dist: "distinct (map (\<lambda>i. m (qname i)) [0..<N])"
      by (simp_all add: models_nqueens [OF s])
    from dom have "set (map (\<lambda>i. m (qname i)) [0..<N]) \<subseteq> {0..9}"
      by auto
    then have "card (set (map (\<lambda>i. m (qname i)) [0..<N])) \<le> card {0..9::int}"
      by (intro card_mono) simp_all
    moreover from dist have "card (set (map (\<lambda>i. m (qname i)) [0..<N])) = N"
      using distinct_card [of "map (\<lambda>i. m (qname i)) [0..<N]"] by simp
    ultimately have "N \<le> 10"
      by simp
    with assms show False
      by simp
  qed
  with s show ?thesis
    by (simp add: satisfiable_def)
qed


lemma nqueens_domains_added:
  assumes "nqueens N = Inr s" and "q \<in> set (queens N)"
  shows "Le (IntLit 0) q \<in> set s \<and> Le q (IntLit 9) \<in> set s"
proof -
  from assms(1) have "0 < N"
    by (cases N) (simp_all add: nqueens_def queens_def)
  with assms(1) have "s = concat (map (\<lambda>n. [Le (IntLit 0) n, Le n (IntLit 9)]) (queens N))
      @ [Distinct (queens N)] @ diagonals N"
    by (simp add: nqueens_eq)
  with assms(2) show ?thesis
    by auto
qed

text \<open>
  The size 8 of the benchmark has a model, and in every model of every size two queens
  are on different rows and on no common diagonal.
\<close>

lemma models_queens8: "case nqueens 8 of Inl e \<Rightarrow> False | Inr s \<Rightarrow> models queens8 s"
  by code_simp

lemma nqueens_8_satisfiable: "\<exists>s. nqueens 8 = Inr s \<and> satisfiable s"
  using models_queens8
  by (auto simp add: satisfiable_def split: sum.splits)

lemma nqueens_models_no_attack:
  assumes "nqueens N = Inr s" and "models m s" and "i < N" and "j < N" and "i \<noteq> j"
  shows "m (qname i) \<noteq> m (qname j) \<and> \<bar>m (qname i) - m (qname j)\<bar> \<noteq> \<bar>int i - int j\<bar>"
proof -
  from assms(1,2) have dist: "distinct (map (\<lambda>i. m (qname i)) [0..<N])"
    and diag: "\<forall>i<N. \<forall>j<N. i \<noteq> j \<longrightarrow> \<bar>m (qname i) - m (qname j)\<bar> \<noteq> \<bar>int i - int j\<bar>"
    by (simp_all add: models_nqueens)
  from dist assms(3-5) have "map (\<lambda>i. m (qname i)) [0..<N] ! i \<noteq> map (\<lambda>i. m (qname i)) [0..<N] ! j"
    by (simp add: nth_eq_iff_index_eq del: nth_map)
  with assms(3,4) have "m (qname i) \<noteq> m (qname j)"
    by simp
  with diag assms(3-5) show ?thesis
    by blast
qed

subsection \<open>The assertions on the answer of the solver\<close>

lemma assert_check_eq_sat_fails_iff:
  "assert_check_eq_sat r = Inl AssertionError \<longleftrightarrow> r \<noteq> sat"
  by (simp add: assert_check_eq_sat_def py_assert_def)

lemma other_sections_assert:
  "(ca_assert_cell check = Inl AssertionError \<longleftrightarrow> check ca_solver \<noteq> sat)
   \<and> (mc_assert_cell check = Inl AssertionError \<longleftrightarrow> check mc_solver \<noteq> sat)
   \<and> (s_assert_cell check = Inl AssertionError \<longleftrightarrow> check s_solver \<noteq> sat)"
  by (simp add: ca_assert_cell_def mc_assert_cell_def s_assert_cell_def
      assert_check_eq_sat_fails_iff)

lemma assert_check_passes: "assert_check r = Inr ()"
  by (simp add: assert_check_def py_assert_def truth_value_def)

lemma benchmark_passes:
  assumes "list_all (\<lambda>N. 0 < N) Ns"
  shows "\<exists>ss. benchmark check Ns solutions = Inr (solutions @ ss) \<and> length ss = length Ns"
  using assms
proof (induction Ns arbitrary: solutions)
  case Nil
  then show ?case by simp
next
  case (Cons N Ns)
  then have "0 < N" and rest: "list_all (\<lambda>N. 0 < N) Ns"
    by simp_all
  then obtain s where s: "nqueens N = Inr s"
    by (simp add: nqueens_eq)
  from Cons.IH [OF rest, of "solutions @ [s]"]
  obtain ss where "benchmark check Ns (solutions @ [s]) = Inr ((solutions @ [s]) @ ss)"
    and "length ss = length Ns"
    by blast
  with s show ?case
    by (simp add: assert_check_passes)
qed

text \<open>
  C3. For every N > 10 the constraint set that \<open>nqueens N\<close> builds has no model: it
  bounds each of the N queen constants to 0..9 and requires the N constants to be
  distinct.
\<close>

theorem nqueens_unsatisfiable_above_ten:
  assumes "10 < N"
  shows "\<exists>s. nqueens N = Inr s \<and> \<not> satisfiable s
       \<and> length (queens N) = N
       \<and> list_all (\<lambda>q. Le (IntLit 0) q \<in> set s \<and> Le q (IntLit 9) \<in> set s) (queens N)
       \<and> Distinct (queens N) \<in> set s"
proof -
  from nqueens_unsat [OF assms] obtain s where s: "nqueens N = Inr s" and un: "\<not> satisfiable s"
    by blast
  from s have "list_all (\<lambda>q. Le (IntLit 0) q \<in> set s \<and> Le q (IntLit 9) \<in> set s) (queens N)"
    by (simp add: list_all_iff nqueens_domains_added)
  moreover from s assms have "Distinct (queens N) \<in> set s"
    by (auto simp add: nqueens_eq)
  moreover have "length (queens N) = N"
    by (simp add: queens_def)
  ultimately show ?thesis
    using s un by blast
qed

theorem nqueens_unsatisfiable_above_ten_witness:
  "(10::nat) < 11 \<and> (\<exists>s. nqueens 11 = Inr s \<and> \<not> satisfiable s \<and> length (queens 11) = 11)"
  using nqueens_unsatisfiable_above_ten [of 11]
  by auto

text \<open>
  C2, at the sizes 16, 32 and 64 of the benchmark: \<open>nqueens\<close> returns a solver and
  the solver has no model, because the bound of the rows is the constant 9 and not
  N - 1. (Size 8 has the model \<open>queens8\<close>, and the second half of the claim is
  \<open>nqueens_models_no_attack\<close>.)
\<close>

theorem nqueens_benchmark_sizes_unsatisfiable:
  "(\<exists>s. nqueens 16 = Inr s \<and> \<not> satisfiable s)
   \<and> (\<exists>s. nqueens 32 = Inr s \<and> \<not> satisfiable s)
   \<and> (\<exists>s. nqueens 64 = Inr s \<and> \<not> satisfiable s)"
  by (simp add: nqueens_unsat)

text \<open>
  C1, in the N-Queens section: the solver for size 16 has no model, so its check does
  not answer sat; the assertion of the benchmark loop passes on the answer unsat,
  where the assertion of the three other sections fails; and the loop over the four
  sizes ends without an error whatever the checks answer.
\<close>

theorem benchmark_assert_passes_on_unsat:
  "(\<exists>s. nqueens 16 = Inr s \<and> \<not> satisfiable s)
   \<and> assert_check unsat = Inr ()
   \<and> assert_check_eq_sat unsat = Inl AssertionError
   \<and> (\<exists>solutions. benchmark check sizes [] = Inr solutions \<and> length solutions = 4)"
proof -
  have "list_all (\<lambda>N. 0 < N) sizes"
    by (simp add: sizes_def)
  from benchmark_passes [OF this, of check "[]"]
  obtain ss where "benchmark check sizes [] = Inr ss" and "length ss = length sizes"
    by auto
  moreover have "length sizes = 4"
    by (simp add: sizes_def)
  ultimately have "\<exists>solutions. benchmark check sizes [] = Inr solutions \<and> length solutions = 4"
    by simp
  then show ?thesis
    by (simp add: nqueens_unsat assert_check_passes assert_check_eq_sat_fails_iff)
qed

section \<open>Sudoku: the constraint set and its models\<close>

lemma fold_add_when:
  "fold (\<lambda>x s. if P x then add (f x) s else s) xs s
     = s @ concat (map (\<lambda>x. if P x then f x else []) xs)"
  by (induction xs arbitrary: s) (simp_all add: add_def)

text \<open>
  The general constraints, written with the names of the boxes: the domains of the 81
  boxes, the 9 rows, the 9 columns and the 9 blocks.
\<close>

lemma s_general_eq:
  "s_general =
     concat (map (\<lambda>box. [Le (IntLit 1) box, Le box (IntLit 9)]) [IntConst [r, c]. r \<leftarrow> rows, c \<leftarrow> cols])
     @ map Distinct [[IntConst [r, c]. c \<leftarrow> cols]. r \<leftarrow> rows]
     @ map Distinct [[IntConst [r, c]. r \<leftarrow> rows]. c \<leftarrow> cols]
     @ map Distinct [[IntConst [r, c]. r \<leftarrow> rs, c \<leftarrow> cs].
                      rs \<leftarrow> [''ABC'', ''DEF'', ''GHI''], cs \<leftarrow> [''123'', ''456'', ''789'']]"
  by code_simp

lemma hints_eq:
  "hints s =
     s @ [Eq (boxes ! row ! column) (IntLit (board ! row ! column)).
            row \<leftarrow> [0..<9], column \<leftarrow> [0..<9], board ! row ! column \<noteq> 0]"
proof -
  have inner: "fold (\<lambda>column s. if board ! row ! column \<noteq> 0
        then add [Eq (boxes ! row ! column) (IntLit (board ! row ! column))] s else s) xs
      = (\<lambda>s. s @ concat (map (\<lambda>column. if board ! row ! column \<noteq> 0
        then [Eq (boxes ! row ! column) (IntLit (board ! row ! column))] else []) xs))"
    for row xs
    by (rule ext) (rule fold_add_when)
  have outer: "fold (\<lambda>x s. s @ g x) xs s = s @ concat (map g xs)"
    for g :: "nat \<Rightarrow> form list" and xs s
    by (induction xs arbitrary: s) simp_all
  show ?thesis
    unfolding hints_def inner outer ..
qed

lemma models_s_printed: "models s_printed s_solver"
  by code_simp

lemma distinct_map_of_int:
  "distinct (map (\<lambda>x. (of_int (f x) :: rat)) xs) \<longleftrightarrow> distinct (map f xs)"
  by (induction xs) auto

lemma models_append: "models m (s @ t) \<longleftrightarrow> models m s \<and> models m t"
  by (simp add: models_def)

lemma models_s_general:
  "models m s_general \<longleftrightarrow>
     (\<forall>r\<in>set rows. \<forall>c\<in>set cols. 1 \<le> m [r, c] \<and> m [r, c] \<le> 9)
     \<and> (\<forall>r\<in>set rows. distinct (map (\<lambda>c. m [r, c]) cols))
     \<and> (\<forall>c\<in>set cols. distinct (map (\<lambda>r. m [r, c]) rows))
     \<and> (\<forall>rs\<in>set [''ABC'', ''DEF'', ''GHI'']. \<forall>cs\<in>set [''123'', ''456'', ''789''].
           distinct [m [r, c]. r \<leftarrow> rs, c \<leftarrow> cs])"
proof -
  have dom: "list_all (holds m)
      (concat (map (\<lambda>box. [Le (IntLit 1) box, Le box (IntLit 9)]) [IntConst [r, c]. r \<leftarrow> rows, c \<leftarrow> cols]))
      \<longleftrightarrow> (\<forall>r\<in>set rows. \<forall>c\<in>set cols. 1 \<le> m [r, c] \<and> m [r, c] \<le> 9)"
    by (auto simp add: list_all_iff)
  have row: "list_all (holds m) (map Distinct [[IntConst [r, c]. c \<leftarrow> cols]. r \<leftarrow> rows])
      \<longleftrightarrow> (\<forall>r\<in>set rows. distinct (map (\<lambda>c. m [r, c]) cols))"
    by (simp add: list_all_iff comp_def distinct_map_of_int)
  have col: "list_all (holds m) (map Distinct [[IntConst [r, c]. r \<leftarrow> rows]. c \<leftarrow> cols])
      \<longleftrightarrow> (\<forall>c\<in>set cols. distinct (map (\<lambda>r. m [r, c]) rows))"
    by (simp add: list_all_iff comp_def distinct_map_of_int)
  have blk: "list_all (holds m) (map Distinct [[IntConst [r, c]. r \<leftarrow> rs, c \<leftarrow> cs].
                      rs \<leftarrow> [''ABC'', ''DEF'', ''GHI''], cs \<leftarrow> [''123'', ''456'', ''789'']])
      \<longleftrightarrow> (\<forall>rs\<in>set [''ABC'', ''DEF'', ''GHI'']. \<forall>cs\<in>set [''123'', ''456'', ''789''].
           distinct [m [r, c]. r \<leftarrow> rs, c \<leftarrow> cs])"
    by simp
  show ?thesis
    unfolding s_general_eq models_def list_all_append dom row col blk ..
qed

text \<open>
  C5. Every satisfying model of \<open>s_solver\<close> gives each of the 81 boxes (row letter
  A..I, column digit 1..9) a value in 1..9, and the nine values of every row, of every
  column and of every 3x3 block are pairwise distinct.
\<close>

theorem s_models_are_sudoku_grids:
  assumes "models m s_solver"
  shows "length (concat boxes) = 81 \<and> distinct (concat boxes)
       \<and> (\<forall>r\<in>set rows. \<forall>c\<in>set cols. 1 \<le> m [r, c] \<and> m [r, c] \<le> 9)
       \<and> (\<forall>r\<in>set rows. distinct (map (\<lambda>c. m [r, c]) cols))
       \<and> (\<forall>c\<in>set cols. distinct (map (\<lambda>r. m [r, c]) rows))
       \<and> (\<forall>rs\<in>set [''ABC'', ''DEF'', ''GHI'']. \<forall>cs\<in>set [''123'', ''456'', ''789''].
             distinct [m [r, c]. r \<leftarrow> rs, c \<leftarrow> cs])"
proof -
  from assms have "models m s_general"
    by (simp add: s_solver_def hints_eq models_append)
  moreover have "length (concat boxes) = 81"
    by (simp add: boxes_def rows_def cols_def)
  moreover have "distinct (concat boxes)"
    by code_simp
  ultimately show ?thesis
    by (simp only: models_s_general simp_thms)
qed

theorem s_models_are_sudoku_grids_witness:
  "models s_printed s_solver
   \<and> map (\<lambda>c. s_printed [CHR ''A'', c]) cols = [8, 1, 2, 7, 5, 3, 6, 4, 9]
   \<and> distinct (map (\<lambda>c. s_printed [CHR ''A'', c]) cols)
   \<and> distinct (map (\<lambda>r. s_printed [r, CHR ''1'']) rows)
   \<and> distinct [s_printed [r, c]. r \<leftarrow> ''ABC'', c \<leftarrow> ''123'']"
proof -
  note grid = s_models_are_sudoku_grids [OF models_s_printed]
  have row: "map (\<lambda>c. s_printed [CHR ''A'', c]) cols = [8, 1, 2, 7, 5, 3, 6, 4, 9]"
    by code_simp
  have "CHR ''A'' \<in> set rows" and "CHR ''1'' \<in> set cols"
    by (simp_all add: rows_def cols_def)
  with grid have "distinct (map (\<lambda>c. s_printed [CHR ''A'', c]) cols)"
    and "distinct (map (\<lambda>r. s_printed [r, CHR ''1'']) rows)"
    by blast+
  moreover have "''ABC'' \<in> set [''ABC'', ''DEF'', ''GHI'']" and "''123'' \<in> set [''123'', ''456'', ''789'']"
    by simp_all
  with grid have "distinct [s_printed [r, c]. r \<leftarrow> ''ABC'', c \<leftarrow> ''123'']"
    by blast
  ultimately show ?thesis
    using models_s_printed row by blast
qed

lemma boxes_nth:
  assumes "i < 9" and "j < 9"
  shows "boxes ! i ! j = IntConst [rows ! i, cols ! j]"
proof -
  have "length rows = 9" and "length cols = 9"
    by (simp_all add: rows_def cols_def)
  with assms show ?thesis
    by (simp add: boxes_def)
qed

lemma in_set_guarded:
  "y \<in> set [f i j. i \<leftarrow> xs, j \<leftarrow> ys, P i j] \<longleftrightarrow> (\<exists>i\<in>set xs. \<exists>j\<in>set ys. P i j \<and> y = f i j)"
  by auto

lemma s_general_no_Eq:
  "filter (\<lambda>c. case c of Eq a b \<Rightarrow> True | _ \<Rightarrow> False) s_general = []"
  by (simp add: s_general_eq filter_empty_conv)

text \<open>
  C6. The board is 9 by 9. The hint loop adds \<open>boxes[i][j] == board[i][j]\<close> for
  the cells whose board entry is not 0, in the order of the loop, and nothing else:
  these are the only equality constraints of \<open>s_solver\<close>. So a satisfying model
  gives the box of every cell with a nonzero board entry that entry.
\<close>

theorem s_hints_follow_board:
  "length board = 9 \<and> list_all (\<lambda>row. length row = 9) board
   \<and> s_solver = s_general @ [Eq (boxes ! row ! column) (IntLit (board ! row ! column)).
                     row \<leftarrow> [0..<9], column \<leftarrow> [0..<9], board ! row ! column \<noteq> 0]
   \<and> filter (\<lambda>c. case c of Eq a b \<Rightarrow> True | _ \<Rightarrow> False) s_solver
       = [Eq (boxes ! row ! column) (IntLit (board ! row ! column)).
            row \<leftarrow> [0..<9], column \<leftarrow> [0..<9], board ! row ! column \<noteq> 0]
   \<and> (models m s_solver \<longrightarrow>
        (\<forall>i<9. \<forall>j<9. board ! i ! j \<noteq> 0 \<longrightarrow> m [rows ! i, cols ! j] = board ! i ! j))"
proof -
  let ?hs = "[Eq (boxes ! row ! column) (IntLit (board ! row ! column)).
               row \<leftarrow> [0..<9], column \<leftarrow> [0..<9], board ! row ! column \<noteq> 0]"
  have shape: "length board = 9 \<and> list_all (\<lambda>row. length row = 9) board"
    by (simp add: board_def)
  have eq: "s_solver = s_general @ ?hs"
    by (simp only: s_solver_def hints_eq)
  have "filter (\<lambda>c. case c of Eq a b \<Rightarrow> True | _ \<Rightarrow> False) ?hs = ?hs"
    by (simp add: filter_concat comp_def)
  then have only: "filter (\<lambda>c. case c of Eq a b \<Rightarrow> True | _ \<Rightarrow> False) s_solver = ?hs"
    by (simp only: eq filter_append s_general_no_Eq append_Nil)
  have agree: "m [rows ! i, cols ! j] = board ! i ! j"
    if m: "models m s_solver" and ij: "i < 9" "j < 9" and nz: "board ! i ! j \<noteq> 0" for i j
  proof -
    from ij nz have "\<exists>r\<in>set [0..<9]. \<exists>c\<in>set [0..<9]. board ! r ! c \<noteq> 0
        \<and> Eq (boxes ! i ! j) (IntLit (board ! i ! j)) = Eq (boxes ! r ! c) (IntLit (board ! r ! c))"
      by (intro bexI [of _ i] bexI [of _ j]) simp_all
    then have "Eq (boxes ! i ! j) (IntLit (board ! i ! j)) \<in> set ?hs"
      by (simp only: in_set_guarded)
    moreover from m have "models m ?hs"
      by (simp only: eq models_append)
    then have "\<forall>c\<in>set ?hs. holds m c"
      by (simp only: models_def list_all_iff)
    ultimately have "holds m (Eq (boxes ! i ! j) (IntLit (board ! i ! j)))"
      by blast
    with ij show ?thesis
      by (simp add: boxes_nth)
  qed
  from shape eq only agree show ?thesis
    by blast
qed

theorem s_hints_follow_board_witness:
  "models s_printed s_solver
   \<and> board ! 0 ! 0 = 8 \<and> s_printed ''A1'' = 8
   \<and> board ! 8 ! 6 = 4 \<and> s_printed ''I7'' = 4"
proof -
  note agree = s_hints_follow_board [of s_printed, THEN conjunct2, THEN conjunct2,
      THEN conjunct2, THEN conjunct2, rule_format, OF models_s_printed]
  have b: "board ! 0 ! 0 = 8" "board ! 8 ! 6 = 4"
    by (simp_all add: board_def)
  have n: "[rows ! 0, cols ! 0] = ''A1''" "[rows ! 8, cols ! 6] = ''I7''"
    by (simp_all add: rows_def cols_def)
  from agree [of 0 0] b(1) n(1) have "s_printed ''A1'' = 8"
    by simp
  moreover from agree [of 8 6] b(2) n(2) have "s_printed ''I7'' = 4"
    by simp
  ultimately show ?thesis
    using models_s_printed b by blast
qed

section \<open>The domains of the declared constants\<close>

lemma bounded_in_models:
  assumes "Le (IntLit lo) (IntConst x) \<in> set s" and "Le (IntConst x) (IntLit hi) \<in> set s"
    and "models m s"
  shows "m x \<in> {lo..hi}"
proof -
  from assms have "holds m (Le (IntLit lo) (IntConst x))" and "holds m (Le (IntConst x) (IntLit hi))"
    by (simp_all add: models_def list_all_iff del: holds.simps)
  then show ?thesis
    by simp
qed

lemma concat_boxes: "concat boxes = [IntConst [r, c]. r \<leftarrow> rows, c \<leftarrow> cols]"
  by (simp add: boxes_def)

lemma s_solver_domains_added:
  "list_all (\<lambda>v. Le (IntLit 1) v \<in> set s_solver \<and> Le v (IntLit 9) \<in> set s_solver) (concat boxes)"
proof -
  have "Le (IntLit 1) v \<in> set s_general \<and> Le v (IntLit 9) \<in> set s_general"
    if "v \<in> set (concat boxes)" for v
  proof -
    let ?dom = "concat (map (\<lambda>box. [Le (IntLit 1) box, Le box (IntLit 9)]) (concat boxes))"
    from that have "Le (IntLit 1) v \<in> set ?dom \<and> Le v (IntLit 9) \<in> set ?dom"
      by auto
    moreover have "set ?dom \<subseteq> set s_general"
      by (simp only: s_general_eq concat_boxes set_append Un_upper1)
    ultimately show ?thesis
      by blast
  qed
  then show ?thesis
    by (simp add: list_all_iff s_solver_def hints_eq)
qed

text \<open>
  C8. In each of the four sections every declared constant gets a lower and an upper
  bound in the solver on which the check is then called: the letters 0 and 9, the
  regions 0 and 2, the queens 0 and 9 (for every size for which \<open>nqueens\<close>
  returns a solver, that is every size but 0), the boxes 1 and 9. So in every model
  the value of every constant lies in that finite interval.
\<close>

theorem every_constant_is_bounded:
  "list_all (\<lambda>v. Le (IntLit 0) v \<in> set ca_solver \<and> Le v (IntLit 9) \<in> set ca_solver)
      [F, O', R, T, U, W]
   \<and> list_all (\<lambda>v. Le (IntLit 0) v \<in> set mc_solver \<and> Le v (IntLit 2) \<in> set mc_solver)
      [WA, SA, NT, Q, NSW, V, T]
   \<and> (case nqueens N of
        Inl e \<Rightarrow> N = 0
      | Inr s \<Rightarrow> list_all (\<lambda>v. Le (IntLit 0) v \<in> set s \<and> Le v (IntLit 9) \<in> set s) (queens N))
   \<and> list_all (\<lambda>v. Le (IntLit 1) v \<in> set s_solver \<and> Le v (IntLit 9) \<in> set s_solver)
      (concat boxes)
   \<and> (models m1 ca_solver \<longrightarrow> (\<forall>x\<in>set [''F'', ''O'', ''R'', ''T'', ''U'', ''W'']. m1 x \<in> {0..9}))
   \<and> (models m2 mc_solver \<longrightarrow>
        (\<forall>x\<in>set [''WA'', ''SA'', ''NT'', ''Q'', ''NSW'', ''V'', ''T'']. m2 x \<in> {0..2}))
   \<and> (\<forall>s. nqueens N = Inr s \<and> models m3 s \<longrightarrow> (\<forall>i<N. m3 (qname i) \<in> {0..9}))
   \<and> (models m4 s_solver \<longrightarrow> (\<forall>r\<in>set rows. \<forall>c\<in>set cols. m4 [r, c] \<in> {1..9}))"
proof -
  have ca: "list_all (\<lambda>v. Le (IntLit 0) v \<in> set ca_solver \<and> Le v (IntLit 9) \<in> set ca_solver)
      [F, O', R, T, U, W]"
    by (simp add: ca_solver_def add_def Solver_def)
  have mc: "list_all (\<lambda>v. Le (IntLit 0) v \<in> set mc_solver \<and> Le v (IntLit 2) \<in> set mc_solver)
      [WA, SA, NT, Q, NSW, V, T]"
    by (simp add: mc_solver_eq)
  have nq: "case nqueens N of
        Inl e \<Rightarrow> N = 0
      | Inr s \<Rightarrow> list_all (\<lambda>v. Le (IntLit 0) v \<in> set s \<and> Le v (IntLit 9) \<in> set s) (queens N)"
  proof (cases "nqueens N")
    case (Inl e)
    then have "N = 0"
      by (cases N) (simp_all add: nqueens_eq)
    with Inl show ?thesis by simp
  next
    case (Inr s)
    then show ?thesis
      by (simp add: list_all_iff nqueens_domains_added)
  qed
  have ca_m: "\<forall>x\<in>set [''F'', ''O'', ''R'', ''T'', ''U'', ''W'']. m1 x \<in> {0..9}" if "models m1 ca_solver"
    using that by (simp add: models_ca_solver)
  have mc_m: "\<forall>x\<in>set [''WA'', ''SA'', ''NT'', ''Q'', ''NSW'', ''V'', ''T'']. m2 x \<in> {0..2}"
    if "models m2 mc_solver"
    using that by (simp add: mc_solver_eq models_def region_defs)
  have nq_m: "\<forall>i<N. m3 (qname i) \<in> {0..9}" if "nqueens N = Inr s" "models m3 s" for s
    using that by (simp add: models_nqueens)
  have s_m: "\<forall>r\<in>set rows. \<forall>c\<in>set cols. m4 [r, c] \<in> {1..9}" if "models m4 s_solver"
    using that by (simp add: s_solver_def hints_eq models_append models_s_general)
  from ca mc nq s_solver_domains_added ca_m mc_m nq_m s_m show ?thesis
    by blast
qed

theorem every_constant_is_bounded_witness:
  "models ca_printed ca_solver \<and> ca_printed ''R'' \<in> {0..9}
   \<and> models mc_printed mc_solver \<and> mc_printed ''NSW'' \<in> {0..2}
   \<and> (case nqueens 8 of Inl e \<Rightarrow> False | Inr s \<Rightarrow> models queens8 s) \<and> queens8 (qname 7) \<in> {0..9}
   \<and> models s_printed s_solver \<and> s_printed ''E5'' \<in> {1..9}"
proof -
  note b = every_constant_is_bounded [of 8 ca_printed mc_printed queens8 s_printed]
  from models_queens8 obtain s where s: "nqueens 8 = Inr s" "models queens8 s"
    by (auto split: sum.splits)
  from b models_ca_printed have "ca_printed ''R'' \<in> {0..9}"
    by simp
  moreover from b models_mc_printed have "mc_printed ''NSW'' \<in> {0..2}"
    by simp
  moreover from b s have "queens8 (qname 7) \<in> {0..9}"
    by simp
  moreover have "CHR ''E'' \<in> set rows" "CHR ''5'' \<in> set cols"
    by (simp_all add: rows_def cols_def)
  with b models_s_printed have "s_printed ''E5'' \<in> {1..9}"
    by blast
  ultimately show ?thesis
    using models_ca_printed models_mc_printed models_queens8 models_s_printed by blast
qed

end
